theory Spec2Isabelle
  imports Complex_Main "HOL-Library.AList"
begin

section \<open>Values shared by the analysers\<close>

text \<open>
  Exceptions the modelled code can raise. A failed provider call (\<open>requests\<close> raising, a
  non-2xx status through \<open>raise_for_status\<close>) carries its message.
\<close>

datatype py_exception = ProviderError string | AttributeError | IndexError

text \<open>
  A field of a JSON object that may be missing or \<open>null\<close> is an \<open>option\<close>. Python's
  \<open>x or d\<close> and \<open>if x:\<close> on such a string also treat the empty string as absent.
\<close>

definition truthy :: "string option \<Rightarrow> bool" where
  "truthy v = (case v of None \<Rightarrow> False | Some s \<Rightarrow> s \<noteq> [])"

definition or_else :: "string option \<Rightarrow> string \<Rightarrow> string" where
  "or_else v d = (case v of None \<Rightarrow> d | Some s \<Rightarrow> if s = [] then d else s)"

text \<open>Python list indexing: a negative index counts from the end, out of range raises.\<close>

definition py_index :: "'a list \<Rightarrow> int \<Rightarrow> py_exception + 'a" where
  "py_index xs i =
     (if 0 \<le> i \<and> i < int (length xs) then Inr (xs ! nat i)
      else if i < 0 \<and> - int (length xs) \<le> i then Inr (xs ! nat (int (length xs) + i))
      else Inl IndexError)"

text \<open>
  Scores are Python floats. The model computes them in exact arithmetic (\<open>rat\<close>, and
  \<open>real\<close> where a square root is taken): the weights are the decimal literals of the
  source, and the source itself rounds each score to 3 or 4 decimals before comparing it,
  which removes the binary representation error of a sum of such literals.
  \<open>round\<close> of Python 3 rounds a tie to the even neighbour.
\<close>

definition py_round :: "'a::floor_ceiling \<Rightarrow> int" where
  "py_round x =
     (let f = \<lfloor>x\<rfloor>; d = x - of_int f
      in if d < 1/2 then f else if 1/2 < d then f + 1 else if even f then f else f + 1)"

definition round_to :: "nat \<Rightarrow> 'a::floor_ceiling \<Rightarrow> 'a" where
  "round_to n x = of_int (py_round (x * 10 ^ n)) / 10 ^ n"

text \<open>\<open>max(xs, key=f)\<close>: the first element whose key is maximal; \<open>None\<close> on an empty list.\<close>

fun max_by_from :: "('a \<Rightarrow> nat) \<Rightarrow> 'a \<Rightarrow> 'a list \<Rightarrow> 'a" where
  "max_by_from f best [] = best"
| "max_by_from f best (x # xs) = max_by_from f (if f best < f x then x else best) xs"

definition max_by :: "('a \<Rightarrow> nat) \<Rightarrow> 'a list \<Rightarrow> 'a option" where
  "max_by f xs = (case xs of [] \<Rightarrow> None | x # rest \<Rightarrow> Some (max_by_from f x rest))"

text \<open>
  \<open>max(set(xs), key=xs.count)\<close>. Python does not fix the order in which a set of strings
  is visited; the model visits the distinct elements in order of first occurrence. The
  order decides the result only when two elements are equally frequent.
\<close>

definition first_occurrences :: "'a list \<Rightarrow> 'a list" where
  "first_occurrences xs = rev (remdups (rev xs))"

definition majority :: "'a list \<Rightarrow> 'a option" where
  "majority xs = max_by (count_list xs) (first_occurrences xs)"

text \<open>\<open>str(n)\<close> of a non-negative integer.\<close>

fun digits_rev :: "nat \<Rightarrow> nat \<Rightarrow> char list" where
  "digits_rev 0 n = []"
| "digits_rev (Suc fuel) n =
     char_of (48 + n mod 10) # (if n div 10 = 0 then [] else digits_rev fuel (n div 10))"

definition str_nat :: "nat \<Rightarrow> string" where
  "str_nat n = rev (digits_rev (Suc n) n)"

section \<open>Transaction records of the provider\<close>

text \<open>
  The JSON of a transaction as the provider returns it: \<open>vin[i].prevout\<close> is an object
  with the fields of an output, or \<open>null\<close> for a coinbase input; an output without a
  standard address has no \<open>scriptpubkey_address\<close>. The field \<open>value\<close> is written
  \<open>out_value\<close> here.
\<close>

record txout =
  scriptpubkey_address :: "string option"
  scriptpubkey_type :: "string option"
  out_value :: nat

record txin =
  prevout :: "txout option"

record tx_json =
  txid :: string
  vin :: "txin list"
  vout :: "txout list"

text \<open>\<open>prev = vin.get("prevout") or {}\<close> followed by \<open>prev.get(field)\<close>.\<close>

definition prev_address :: "txin \<Rightarrow> string option" where
  "prev_address i = (case prevout i of None \<Rightarrow> None | Some p \<Rightarrow> scriptpubkey_address p)"

definition prev_type :: "txin \<Rightarrow> string option" where
  "prev_type i = (case prevout i of None \<Rightarrow> None | Some p \<Rightarrow> scriptpubkey_type p)"

definition prev_value :: "txin \<Rightarrow> nat" where
  "prev_value i = (case prevout i of None \<Rightarrow> 0 | Some p \<Rightarrow> out_value p)"

text \<open>
  \<open>vin.get("prevout", {}).get("value", 0)\<close>: the default applies to a missing key only,
  so a \<open>null\<close> prevout raises AttributeError.
\<close>

fun prevout_values :: "txin list \<Rightarrow> py_exception + nat list" where
  "prevout_values [] = Inr []"
| "prevout_values (i # rest) =
     (case prevout i of
        None \<Rightarrow> Inl AttributeError
      | Some p \<Rightarrow> (case prevout_values rest of Inl e \<Rightarrow> Inl e | Inr vs \<Rightarrow> Inr (out_value p # vs)))"

section \<open>Coinjoin detector\<close>

definition detect_coinjoin :: "tx_json \<Rightarrow> bool \<times> real" where
  "detect_coinjoin tx =
     (let vin_count = length (vin tx); vout_count = length (vout tx) in
      if vin_count \<ge> 5 \<and> vout_count \<ge> 5 then
        (let values = map (\<lambda>v. real (out_value v)) (filter (\<lambda>v. out_value v > 0) (vout tx)) in
         if values = [] then (False, 0)
         else
           (let mean = sum_list values / real (length values);
                variance = sum_list (map (\<lambda>x. (x - mean)\<^sup>2) values) / real (length values);
                sd = sqrt variance;
                rel = sd / (mean + 1 / 10 ^ 9);
                score = max 0 (1 - min (rel / (5 / 100)) 1)
            in (score > 6 / 10, score)))
      else (False, 0))"

section \<open>Disjoint-set clustering: class UnionFind\<close>

text \<open>
  The Python class keeps one dictionary \<open>parent\<close>. A Python dictionary iterates in
  insertion order and an assignment to an existing key keeps the key's position, which is
  what \<open>AList.update\<close> does on an association list; \<open>map_of\<close> is the lookup.

  \<open>find\<close> is recursive on the parent pointer and nothing in its text bounds the
  recursion, so it is modelled as a partial function: \<open>None\<close> is a call that never returns.
  The state (the dictionary) is passed in and returned. The depth limit of the interpreter's
  call stack is not modelled.
\<close>

type_synonym 'a parent_map = "('a \<times> 'a) list"

definition uf_init :: "'a parent_map" where
  "uf_init = []"

partial_function (option) uf_find :: "'a \<Rightarrow> 'a parent_map \<Rightarrow> ('a \<times> 'a parent_map) option" where
  "uf_find a parent =
     (case map_of parent a of
        None \<Rightarrow> Some (a, AList.update a a parent)
      | Some b \<Rightarrow>
          if b = a then Some (a, parent)
          else Option.bind (uf_find b parent)
                 (\<lambda>(r, parent'). Some (r, AList.update a r parent')))"

declare uf_find.simps [code]

definition uf_union :: "'a \<Rightarrow> 'a \<Rightarrow> 'a parent_map \<Rightarrow> 'a parent_map option" where
  "uf_union a b parent =
     Option.bind (uf_find a parent) (\<lambda>(ra, p1).
     Option.bind (uf_find b p1) (\<lambda>(rb, p2).
       Some (if ra \<noteq> rb then AList.update rb ra p2 else p2)))"

text \<open>\<open>out[self.find(k)].append(k)\<close> on a \<open>defaultdict(list)\<close>.\<close>

definition append_member :: "'a \<Rightarrow> 'a \<Rightarrow> ('a \<times> 'a list) list \<Rightarrow> ('a \<times> 'a list) list" where
  "append_member r k out =
     AList.update r ((case map_of out r of None \<Rightarrow> [] | Some ms \<Rightarrow> ms) @ [k]) out"

fun groups_loop ::
  "'a list \<Rightarrow> 'a parent_map \<Rightarrow> ('a \<times> 'a list) list \<Rightarrow> (('a \<times> 'a list) list \<times> 'a parent_map) option" where
  "groups_loop [] parent out = Some (out, parent)"
| "groups_loop (k # ks) parent out =
     Option.bind (uf_find k parent) (\<lambda>(r, parent'). groups_loop ks parent' (append_member r k out))"

definition uf_groups :: "'a parent_map \<Rightarrow> (('a \<times> 'a list) list \<times> 'a parent_map) option" where
  "uf_groups parent = groups_loop (map fst parent) parent []"




text \<open>
  The forest invariant. \<open>root_of parent a r\<close>: following the parent pointer from the key
  \<open>a\<close> reaches, after finitely many steps, the key \<open>r\<close> that is its own parent.
\<close>

inductive root_of :: "'a parent_map \<Rightarrow> 'a \<Rightarrow> 'a \<Rightarrow> bool" for parent where
  self: "map_of parent a = Some a \<Longrightarrow> root_of parent a a"
| up: "map_of parent a = Some b \<Longrightarrow> b \<noteq> a \<Longrightarrow> root_of parent b r \<Longrightarrow> root_of parent a r"

definition uf_forest :: "'a parent_map \<Rightarrow> bool" where
  "uf_forest parent = (\<forall>a \<in> fst ` set parent. \<exists>r. root_of parent a r)"

definition same_cluster :: "'a parent_map \<Rightarrow> 'a \<Rightarrow> 'a \<Rightarrow> bool" where
  "same_cluster parent a b = (\<exists>r. root_of parent a r \<and> root_of parent b r)"

section \<open>Change-output scorers\<close>

subsection \<open>The simple scorer: change_candidate_scores\<close>

text \<open>
  The dictionaries this scorer returns have the keys \<open>vout_index\<close>, \<open>address\<close>,
  \<open>value\<close> and \<open>score\<close>, and no other.
\<close>

record simple_score =
  s_vout_index :: nat
  s_address :: string
  s_value :: nat
  s_score :: rat

text \<open>
  Such a dictionary has no key \<open>flags\<close>. Read the way the driver reads the flags of a
  candidate, \<open>c.get("flags", [])\<close> (line 1385), its tags are the empty list.
\<close>

definition simple_flags :: "simple_score \<Rightarrow> string list" where
  "simple_flags r = []"

text \<open>
  \<open>if "scriptpubkey_address" in prev: vin_addrs.append(prev.get("scriptpubkey_address"))\<close>,
  and the same for the script type: a present field is collected whatever its value.
\<close>

definition present_fields :: "(txin \<Rightarrow> string option) \<Rightarrow> txin list \<Rightarrow> string list" where
  "present_fields field ins = concat (map (\<lambda>i. case field i of None \<Rightarrow> [] | Some s \<Rightarrow> [s]) ins)"

text \<open>One round of the loop over the outputs (lines 100 to 104).\<close>

definition simple_score_of ::
  "string list \<Rightarrow> string option \<Rightarrow> nat \<Rightarrow> nat \<Rightarrow> txout \<Rightarrow> simple_score" where
  "simple_score_of vin_addrs majority_script max_in idx out =
     (let score = 0;
          addr = scriptpubkey_address out;
          sval = out_value out;
          score = (if truthy addr \<and> the addr \<in> set vin_addrs then score + 4 / 10 else score);
          score = (if truthy majority_script \<and> scriptpubkey_type out = majority_script
                   then score + 2 / 10 else score);
          score = (if max_in > 0 \<and> rat_of_nat sval < rat_of_nat max_in * (95 / 100) \<and> sval > 0
                   then score + 2 / 10 else score)
      in \<lparr> s_vout_index = idx, s_address = or_else addr ''NON_STANDARD'', s_value = sval,
           s_score = round_to 4 (min score 1) \<rparr>)"

definition simple_main_pass :: "tx_json \<Rightarrow> py_exception + simple_score list" where
  "simple_main_pass tx =
     (let vin_addrs = present_fields prev_address (vin tx);
          vin_script_types = present_fields prev_type (vin tx);
          majority_script = (if vin_script_types \<noteq> [] then majority vin_script_types else None)
      in case prevout_values (vin tx) of
           Inl e \<Rightarrow> Inl e
         | Inr vs \<Rightarrow>
             (let max_in = Max (set (vs @ [0]))
              in Inr (map (\<lambda>(idx, out). simple_score_of vin_addrs majority_script max_in idx out)
                        (enumerate 0 (vout tx)))))"

text \<open>
  \<open>positive = [o for o in out_scores if o["score"] > 0]\<close> holds the dictionaries
  themselves, so the assignment to \<open>positive[0]["score"]\<close> changes the entry of
  \<open>out_scores\<close> at the position of the only positive score.
\<close>

definition positive_positions :: "rat list \<Rightarrow> nat list" where
  "positive_positions scores = filter (\<lambda>i. scores ! i > 0) [0..<length scores]"

definition simple_boost :: "simple_score list \<Rightarrow> simple_score list" where
  "simple_boost out_scores =
     (case positive_positions (map s_score out_scores) of
        [i] \<Rightarrow> out_scores[i := (out_scores ! i)\<lparr> s_score := min 1 (s_score (out_scores ! i) + 15 / 100) \<rparr>]
      | _ \<Rightarrow> out_scores)"

definition change_candidate_scores :: "tx_json \<Rightarrow> py_exception + simple_score list" where
  "change_candidate_scores tx =
     (case simple_main_pass tx of Inl e \<Rightarrow> Inl e | Inr out_scores \<Rightarrow> Inr (simple_boost out_scores))"

subsection \<open>The detailed scorer: detect_change_candidates_for_tx\<close>

record candidate =
  vout_index :: nat
  address :: string
  value_sats :: nat
  score :: rat
  flags :: "string list"

text \<open>
  \<open>trailing_zeros_in_sats\<close>. The source tests \<open>sats <= 0\<close> once, before the loop
  \<open>while sats % 10 == 0\<close>; a positive multiple of ten stays positive when divided by
  ten, so the test is written into the loop.
\<close>

function tz_loop :: "nat \<Rightarrow> nat \<Rightarrow> nat" where
  "tz_loop sats tz = (if sats \<noteq> 0 \<and> sats mod 10 = 0 then tz_loop (sats div 10) (tz + 1) else tz)"
  by pat_completeness auto
termination
  by (relation "measure (\<lambda>(sats, tz). sats)") auto

declare tz_loop.simps [simp del]

definition trailing_zeros_in_sats :: "nat \<Rightarrow> nat" where
  "trailing_zeros_in_sats sats = (if sats = 0 then 0 else tz_loop sats 0)"

text \<open>
  \<open>f"{sats/1e8:.8f}".split(".")[1].rstrip("0")\<close>: the eight decimals of the amount in
  BTC without the trailing zeros. The eight decimals are the last eight decimal digits of
  \<open>sats\<close>: the floating-point quotient prints these digits for every amount up to
  bitcoin's supply of 21 million BTC.
\<close>

definition btc_decimals :: "nat \<Rightarrow> nat list" where
  "btc_decimals sats = map (\<lambda>i. (sats div 10 ^ (7 - i)) mod 10) [0..<8]"

definition dec_len :: "nat \<Rightarrow> nat" where
  "dec_len sats = length (rev (dropWhile (\<lambda>d. d = 0) (rev (btc_decimals sats))))"

definition is_coinjoin_like :: "nat list \<Rightarrow> bool" where
  "is_coinjoin_like values = list_ex (\<lambda>v. count_list values v \<ge> 2) values"

text \<open>
  \<open>st = prev.get("scriptpubkey_type"); if st: vin_script_types.append(st)\<close>: here only a
  non-empty type is collected.
\<close>

definition truthy_fields :: "(txin \<Rightarrow> string option) \<Rightarrow> txin list \<Rightarrow> string list" where
  "truthy_fields field ins =
     concat (map (\<lambda>i. case field i of None \<Rightarrow> [] | Some s \<Rightarrow> if s = [] then [] else [s]) ins)"

text \<open>One round of the loop over the outputs (lines 1233 to 1280).\<close>

definition candidate_of :: "bool \<Rightarrow> string option \<Rightarrow> nat \<Rightarrow> nat \<Rightarrow> txout \<Rightarrow> candidate" where
  "candidate_of coinjoin_like major_script total_in idx v =
     (let addr = or_else (scriptpubkey_address v) (''NON_STD_'' @ str_nat idx);
          sats = out_value v;
          fl = [];
          sc = 0;
          (fl, sc) = (if dec_len sats \<ge> 6 then (fl @ [''high_decimal''], sc + 20 / 100) else (fl, sc));
          tz = trailing_zeros_in_sats sats;
          (fl, sc) = (if tz \<ge> 5 then (fl @ [''round_amount''], sc - 15 / 100) else (fl, sc));
          (fl, sc) = (if truthy major_script \<and> scriptpubkey_type v = major_script
                      then (fl @ [''script_match''], sc + 15 / 100) else (fl, sc));
          (fl, sc) = (if total_in > 0 \<and> 0 < sats \<and> rat_of_nat sats < rat_of_nat total_in * (95 / 100)
                      then (fl @ [''smaller_than_inputs''], sc + 10 / 100) else (fl, sc));
          (fl, sc) = (if coinjoin_like then (fl @ [''coinjoin_like''], sc - 20 / 100) else (fl, sc));
          sc = max (- 1) (min 1 sc)
      in \<lparr> vout_index = idx, address = addr, value_sats = sats, score = round_to 3 sc, flags = fl \<rparr>)"

definition detailed_main_pass :: "tx_json \<Rightarrow> py_exception + candidate list" where
  "detailed_main_pass tx =
     (let vouts = vout tx;
          values = map out_value vouts;
          coinjoin_like = is_coinjoin_like values;
          vin_script_types = truthy_fields prev_type (vin tx);
          major_script = (if vin_script_types \<noteq> [] then majority vin_script_types else None)
      in case prevout_values (vin tx) of
           Inl e \<Rightarrow> Inl e
         | Inr vs \<Rightarrow>
             (let total_in = (if sum_list vs = 0 then 1 else sum_list vs)
              in Inr (map (\<lambda>(idx, v). candidate_of coinjoin_like major_script total_in idx v)
                        (enumerate 0 vouts))))"

definition detailed_boost :: "candidate list \<Rightarrow> candidate list" where
  "detailed_boost results =
     (case positive_positions (map score results) of
        [i] \<Rightarrow> results[i := (results ! i)\<lparr> score := min 1 (score (results ! i) + 12 / 100),
                                            flags := flags (results ! i) @ [''sole_positive_boost''] \<rparr>]
      | _ \<Rightarrow> results)"

definition detect_change_candidates_for_tx :: "tx_json \<Rightarrow> py_exception + candidate list" where
  "detect_change_candidates_for_tx tx =
     (case detailed_main_pass tx of Inl e \<Rightarrow> Inl e | Inr results \<Rightarrow> Inr (detailed_boost results))"

subsection \<open>The signals of the two scorers, named\<close>

text \<open>
  The conditions of the source, written once each so that a score can be stated as a sum.
  \<open>script_match\<close> and \<open>remainder\<close> are shared by the two scorers, which apply them to
  different arguments: the simple scorer to the script types of all inputs that have one
  and to the largest input value, the detailed scorer to the non-empty script types and to
  the sum of the input values (1 when the sum is 0).
\<close>

definition majority_of :: "string list \<Rightarrow> string option" where
  "majority_of types = (if types \<noteq> [] then majority types else None)"




definition largest_input :: "tx_json \<Rightarrow> nat" where
  "largest_input tx = Max (set (map prev_value (vin tx) @ [0]))"

definition total_input :: "tx_json \<Rightarrow> nat" where
  "total_input tx =
     (if sum_list (map prev_value (vin tx)) = 0 then 1 else sum_list (map prev_value (vin tx)))"

section \<open>Bipartite graph builder and projector\<close>

text \<open>
  The edge dictionaries; the key \<open>type\<close> is \<open>e_type\<close>, \<open>from\<close> is \<open>e_from\<close> and so on.
\<close>

record bip_edge =
  e_type :: string
  e_from :: string
  e_to :: string
  e_sats :: nat
  e_txid :: string

record projected_edge =
  p_txid :: string
  p_from :: string
  p_to :: string
  p_sats :: int

definition add_bipartite_edges_for_tx :: "tx_json \<Rightarrow> bip_edge list \<Rightarrow> bip_edge list" where
  "add_bipartite_edges_for_tx tx bip_edges =
     bip_edges
     @ map (\<lambda>i. \<lparr> e_type = ''addr->tx'', e_from = or_else (prev_address i) ''UNKNOWN_INPUT'',
                   e_to = ''tx:'' @ txid tx, e_sats = prev_value i, e_txid = txid tx \<rparr>) (vin tx)
     @ map (\<lambda>(idx, out). \<lparr> e_type = ''tx->addr'', e_from = ''tx:'' @ txid tx,
                   e_to = or_else (scriptpubkey_address out) (''NON_STD_VOUT_'' @ str_nat idx),
                   e_sats = out_value out, e_txid = txid tx \<rparr>) (enumerate 0 (vout tx))"

text \<open>The two \<open>defaultdict(list)\<close> of the projector, read at one transaction id.\<close>

definition tx_inputs :: "bip_edge list \<Rightarrow> string \<Rightarrow> (string \<times> nat) list" where
  "tx_inputs bip_edges t =
     map (\<lambda>e. (e_from e, e_sats e)) (filter (\<lambda>e. e_type e = ''addr->tx'' \<and> e_txid e = t) bip_edges)"

definition tx_outputs :: "bip_edge list \<Rightarrow> string \<Rightarrow> (string \<times> nat) list" where
  "tx_outputs bip_edges t =
     map (\<lambda>e. (e_to e, e_sats e)) (filter (\<lambda>e. e_type e \<noteq> ''addr->tx'' \<and> e_txid e = t) bip_edges)"

text \<open>
  \<open>share = (in_sats/total_in)*out_sats\<close>, kept when positive and then rounded by
  \<open>int(round(share))\<close>. The share is computed exactly here.
\<close>

definition share :: "nat \<Rightarrow> nat \<Rightarrow> nat \<Rightarrow> rat" where
  "share in_sats total_in out_sats = (rat_of_nat in_sats / rat_of_nat total_in) * rat_of_nat out_sats"

definition project_tx :: "bip_edge list \<Rightarrow> string \<Rightarrow> projected_edge list" where
  "project_tx bip_edges t =
     (let inputs = tx_inputs bip_edges t;
          outputs = tx_outputs bip_edges t;
          total_in = (if sum_list (map snd inputs) = 0 then 1 else sum_list (map snd inputs))
      in concat (map (\<lambda>(out_addr, out_sats).
           concat (map (\<lambda>(in_addr, in_sats).
             if share in_sats total_in out_sats \<le> 0 then []
             else [\<lparr> p_txid = t, p_from = in_addr, p_to = out_addr,
                     p_sats = py_round (share in_sats total_in out_sats) \<rparr>]) inputs)) outputs))"

text \<open>
  The projector visits \<open>set(list(tx_inputs.keys()) + list(tx_outputs.keys()))\<close>, a set of
  strings whose order Python does not fix; the model visits the transaction ids in order
  of first occurrence. Every edge carries its transaction id, so the order only permutes
  the blocks of the result.
\<close>

definition project_address_to_address :: "bip_edge list \<Rightarrow> projected_edge list" where
  "project_address_to_address bip_edges =
     concat (map (project_tx bip_edges) (first_occurrences (map e_txid bip_edges)))"






section \<open>Batch analysis: process_txids\<close>

text \<open>
  The provider: \<open>get_tx_json\<close> and \<open>get_outspends\<close> make one HTTP request each and raise
  when it fails. A provider is a pair of functions from the transaction id to the
  exception raised or the JSON returned: during one run it answers the same request the
  same way.
\<close>

record outspend =
  os_spent :: bool
  os_txid :: "string option"
  os_vin :: "nat option"
  os_value :: "nat option"

record provider =
  get_tx_json :: "string \<Rightarrow> py_exception + tx_json"
  get_outspends :: "string \<Rightarrow> py_exception + outspend list"

text \<open>
  \<open>str.strip()\<close> removes leading and trailing whitespace; these are the characters
  below 128 for which \<open>str.isspace\<close> holds.
\<close>

definition is_space :: "char \<Rightarrow> bool" where
  "is_space c = (c \<in> set [CHR '' '', CHR 0x09, CHR 0x0A, CHR 0x0B, CHR 0x0C, CHR 0x0D,
                           CHR 0x1C, CHR 0x1D, CHR 0x1E, CHR 0x1F])"

definition py_strip :: "string \<Rightarrow> string" where
  "py_strip s = rev (dropWhile is_space (rev (dropWhile is_space s)))"

record tx_flag =
  f_txid :: string
  coinjoin :: bool
  coinjoin_score :: real
  change_scores :: "candidate list"

record batch_state =
  bip_edges :: "bip_edge list"
  uf :: "string parent_map"
  tx_flags :: "tx_flag list"

record batch_result =
  r_bip_edges :: "bip_edge list"
  r_projected :: "projected_edge list"
  r_clusters :: "(string \<times> string list) list"
  r_tx_flags :: "tx_flag list"

text \<open>\<open>base = inputs[0]; for other in inputs[1:]: uf.union(base, other)\<close>, when there are two inputs or more.\<close>

fun union_all :: "'a \<Rightarrow> 'a list \<Rightarrow> 'a parent_map \<Rightarrow> 'a parent_map option" where
  "union_all base [] parent = Some parent"
| "union_all base (other # rest) parent = Option.bind (uf_union base other parent) (union_all base rest)"

definition union_inputs :: "'a list \<Rightarrow> 'a parent_map \<Rightarrow> 'a parent_map option" where
  "union_inputs inputs parent =
     (case inputs of base # other # rest \<Rightarrow> union_all base (other # rest) parent | _ \<Rightarrow> Some parent)"

text \<open>
  The body of the loop over \<open>txid_list\<close> (lines 182 to 204). The result is \<open>None\<close> when a
  \<open>find\<close> does not return, \<open>Some (Inl e)\<close> when the body raises \<open>e\<close>, which leaves
  \<open>process_txids\<close>, and \<open>Some (Inr st)\<close> with the new state otherwise.
\<close>

definition batch_inputs :: "tx_json \<Rightarrow> string list" where
  "batch_inputs tx = map (\<lambda>i. or_else (prev_address i) ''UNKNOWN_INPUT'') (vin tx)"

definition process_one :: "provider \<Rightarrow> string \<Rightarrow> batch_state \<Rightarrow> (py_exception + batch_state) option" where
  "process_one prov raw_txid st =
     (let t = py_strip raw_txid in
      if t = [] then Some (Inr st)
      else case get_tx_json prov t of
        Inl e \<Rightarrow> Some (Inl e)
      | Inr tx \<Rightarrow>
          (let (cj_flag, cj_score) = detect_coinjoin tx in
           case detect_change_candidates_for_tx tx of
             Inl e \<Rightarrow> Some (Inl e)
           | Inr scores \<Rightarrow>
               (let flag = \<lparr> f_txid = t, coinjoin = cj_flag, coinjoin_score = round_to 4 cj_score,
                             change_scores = scores \<rparr>
                in case union_inputs (batch_inputs tx) (uf st) of
                     None \<Rightarrow> None
                   | Some parent' \<Rightarrow>
                       Some (Inr \<lparr> bip_edges = add_bipartite_edges_for_tx tx (bip_edges st),
                                   uf = parent', tx_flags = tx_flags st @ [flag] \<rparr>))))"

fun process_loop :: "provider \<Rightarrow> string list \<Rightarrow> batch_state \<Rightarrow> (py_exception + batch_state) option" where
  "process_loop prov [] st = Some (Inr st)"
| "process_loop prov (t # rest) st =
     (case process_one prov t st of
        None \<Rightarrow> None
      | Some (Inl e) \<Rightarrow> Some (Inl e)
      | Some (Inr st') \<Rightarrow> process_loop prov rest st')"

text \<open>
  \<open>process_txids\<close> up to the data it writes out: the bipartite edges, the projected
  edges, the clusters and the per-transaction flags. Writing the CSV files and drawing the
  graphs is not modelled.
\<close>

definition process_txids :: "provider \<Rightarrow> string list \<Rightarrow> (py_exception + batch_result) option" where
  "process_txids prov txid_list =
     (case process_loop prov txid_list \<lparr> bip_edges = [], uf = uf_init, tx_flags = [] \<rparr> of
        None \<Rightarrow> None
      | Some (Inl e) \<Rightarrow> Some (Inl e)
      | Some (Inr st) \<Rightarrow>
          (case uf_groups (uf st) of
             None \<Rightarrow> None
           | Some (clusters, parent') \<Rightarrow>
               Some (Inr \<lparr> r_bip_edges = bip_edges st,
                           r_projected = project_address_to_address (bip_edges st),
                           r_clusters = clusters, r_tx_flags = tx_flags st \<rparr>)))"

section \<open>Peel-chain tracer: trace_peel_chain\<close>

text \<open>
  A hop dictionary. The hop appended after a failed query has the keys \<open>from_tx\<close>,
  \<open>from_vout\<close>, \<open>value_sats\<close> (\<open>None\<close>), \<open>value_source\<close> and \<open>error\<close> only; a field
  that is \<open>None\<close> below is a missing key or a Python \<open>None\<close>, which every reader of the
  chain takes through \<open>hop.get\<close>. The key \<open>value_sats\<close> is \<open>hop_value_sats\<close> here.
\<close>

record peel_hop =
  from_tx :: string
  from_vout :: int
  raw_outspend :: "outspend option"
  hop_value_sats :: "nat option"
  value_source :: "string option"
  spent :: "bool option"
  spent_in_tx :: "string option"
  spent_in_vin_index :: "nat option"
  spent_addr :: "string option"
  error :: "string option"

definition exception_text :: "py_exception \<Rightarrow> string" where
  "exception_text e =
     (case e of ProviderError msg \<Rightarrow> msg | AttributeError \<Rightarrow> ''AttributeError'' | IndexError \<Rightarrow> ''IndexError'')"

definition falsy :: "nat option \<Rightarrow> bool" where
  "falsy v = (v = None \<or> v = Some 0)"

text \<open>
  Lines 690 to 705: the value of the spend-status entry, then the look-up of the source
  transaction when \<open>force_vout\<close> is set or that value is absent or zero. The look-up is
  inside \<open>try\<close>: a failed fetch and an index that raises both give \<open>tx_vout_error\<close>.
\<close>

definition lookup_declared ::
  "provider \<Rightarrow> string \<Rightarrow> int \<Rightarrow> nat option \<times> string option \<Rightarrow> nat option \<times> string option" where
  "lookup_declared prov cur_tx cur_vout vs =
     (case get_tx_json prov cur_tx of
        Inl e \<Rightarrow> (fst vs, Some ''tx_vout_error'')
      | Inr tx \<Rightarrow>
          if cur_vout < int (length (vout tx)) then
            (case py_index (vout tx) cur_vout of
               Inl e \<Rightarrow> (fst vs, Some ''tx_vout_error'')
             | Inr out \<Rightarrow> (Some (out_value out), Some ''tx_vout''))
          else (fst vs, Some ''tx_vout_missing_index''))"

text \<open>
  Lines 711 to 725: the proxy from the spending transaction, tried while the value is
  absent or zero: \<open>max((o.get("value", 0) for o in outs_sp), default=0)\<close>.
\<close>

definition proxy_spent ::
  "provider \<Rightarrow> outspend \<Rightarrow> nat option \<times> string option \<Rightarrow> nat option \<times> string option" where
  "proxy_spent prov out vs =
     (if os_spent out \<and> truthy (os_txid out) then
        (case get_tx_json prov (the (os_txid out)) of
           Inl e \<Rightarrow> (fst vs, Some ''proxy_error'')
         | Inr sp_tx \<Rightarrow>
             if vout sp_tx \<noteq> [] \<and> Max (set (map out_value (vout sp_tx))) > 0
             then (Some (Max (set (map out_value (vout sp_tx)))), Some ''proxy_spent_largest'')
             else vs)
      else vs)"

definition resolve_value ::
  "provider \<Rightarrow> bool \<Rightarrow> string \<Rightarrow> int \<Rightarrow> outspend \<Rightarrow> nat \<times> string option" where
  "resolve_value prov force_vout cur_tx cur_vout out =
     (let vs = (os_value out, None);
          vs = (if force_vout \<or> falsy (fst vs) then lookup_declared prov cur_tx cur_vout vs else vs);
          vs = (if falsy (fst vs) \<and> \<not> truthy (snd vs) then
                  (case os_value out of
                     Some v \<Rightarrow> if v > 0 then (Some v, Some ''outspends'') else vs
                   | None \<Rightarrow> vs)
                else vs);
          vs = (if falsy (fst vs) then proxy_spent prov out vs else vs)
      in case fst vs of
           None \<Rightarrow> (0, if \<not> truthy (snd vs) then Some ''unknown'' else snd vs)
         | Some v \<Rightarrow> (v, snd vs))"

text \<open>
  The same resolution written as a decision table, to compare with the sequence of
  assignments above. \<open>declared_value\<close> is the outcome of the look-up of the source
  transaction: the declared value, or the tag of the failure. \<open>spending_largest\<close> is the
  outcome of the proxy: the largest output value of the spending transaction when it is
  positive, a failed fetch, or nothing to use.
\<close>

definition declared_value :: "provider \<Rightarrow> string \<Rightarrow> int \<Rightarrow> string + nat" where
  "declared_value prov cur_tx cur_vout =
     (case get_tx_json prov cur_tx of
        Inl e \<Rightarrow> Inl ''tx_vout_error''
      | Inr tx \<Rightarrow>
          if cur_vout < int (length (vout tx)) then
            (case py_index (vout tx) cur_vout of
               Inl e \<Rightarrow> Inl ''tx_vout_error''
             | Inr out \<Rightarrow> Inr (out_value out))
          else Inl ''tx_vout_missing_index'')"

datatype proxy_outcome = Proxy nat | ProxyError | NoProxy

definition spending_largest :: "provider \<Rightarrow> outspend \<Rightarrow> proxy_outcome" where
  "spending_largest prov out =
     (if os_spent out \<and> truthy (os_txid out) then
        (case get_tx_json prov (the (os_txid out)) of
           Inl e \<Rightarrow> ProxyError
         | Inr sp_tx \<Rightarrow>
             if vout sp_tx \<noteq> [] \<and> Max (set (map out_value (vout sp_tx))) > 0
             then Proxy (Max (set (map out_value (vout sp_tx)))) else NoProxy)
      else NoProxy)"

definition resolve_value_table ::
  "provider \<Rightarrow> bool \<Rightarrow> string \<Rightarrow> int \<Rightarrow> outspend \<Rightarrow> nat \<times> string option" where
  "resolve_value_table prov force_vout cur_tx cur_vout out =
     (if \<not> force_vout \<and> \<not> falsy (os_value out) then (the (os_value out), None)
      else
        (let (v, tag) =
               (case declared_value prov cur_tx cur_vout of
                  Inr d \<Rightarrow> (d, ''tx_vout'')
                | Inl failure \<Rightarrow> (case os_value out of None \<Rightarrow> 0 | Some own \<Rightarrow> own, failure))
         in if v > 0 then (v, Some tag)
            else (case spending_largest prov out of
                    Proxy m \<Rightarrow> (m, Some ''proxy_spent_largest'')
                  | ProxyError \<Rightarrow> (0, Some ''proxy_error'')
                  | NoProxy \<Rightarrow> (0, Some tag))))"

text \<open>
  Lines 732 to 744: the address of the largest output of the spending transaction,
  \<open>max(outs, key=lambda o: o.get("value", 0))\<close>, best effort.
\<close>

definition resolve_spent_addr :: "provider \<Rightarrow> outspend \<Rightarrow> string option" where
  "resolve_spent_addr prov out =
     (if os_spent out \<and> truthy (os_txid out) then
        (case get_tx_json prov (the (os_txid out)) of
           Inl e \<Rightarrow> None
         | Inr sp_tx \<Rightarrow>
             (case max_by out_value (vout sp_tx) of
                None \<Rightarrow> None
              | Some candidate \<Rightarrow> Some (or_else (scriptpubkey_address candidate) ''NON_STD'')))
      else None)"

definition error_hop :: "string \<Rightarrow> int \<Rightarrow> string \<Rightarrow> string \<Rightarrow> peel_hop" where
  "error_hop cur_tx cur_vout source tag =
     \<lparr> from_tx = cur_tx, from_vout = cur_vout, raw_outspend = None, hop_value_sats = None,
       value_source = Some source, spent = None, spent_in_tx = None, spent_in_vin_index = None,
       spent_addr = None, error = Some tag \<rparr>"

definition hop_record :: "provider \<Rightarrow> bool \<Rightarrow> string \<Rightarrow> int \<Rightarrow> outspend \<Rightarrow> peel_hop" where
  "hop_record prov force_vout cur_tx cur_vout out =
     (let (v, source) = resolve_value prov force_vout cur_tx cur_vout out
      in \<lparr> from_tx = cur_tx, from_vout = cur_vout, raw_outspend = Some out, hop_value_sats = Some v,
           value_source = source, spent = Some (os_spent out), spent_in_tx = os_txid out,
           spent_in_vin_index = os_vin out, spent_addr = resolve_spent_addr prov out,
           error = None \<rparr>)"

text \<open>
  The loop \<open>for hop in range(max_hops)\<close>: the first argument counts the rounds left.
  \<open>outspends[cur_vout]\<close> is outside every \<open>try\<close>, so an IndexError there leaves the
  function.
\<close>

fun trace_loop ::
  "provider \<Rightarrow> bool \<Rightarrow> nat \<Rightarrow> string \<Rightarrow> int \<Rightarrow> peel_hop list \<Rightarrow> py_exception + peel_hop list" where
  "trace_loop prov force_vout 0 cur_tx cur_vout chain = Inr chain"
| "trace_loop prov force_vout (Suc hops) cur_tx cur_vout chain =
     (case get_outspends prov cur_tx of
        Inl e \<Rightarrow>
          Inr (chain @ [error_hop cur_tx cur_vout ''outspends_error''
                          (''outspends_failed:'' @ exception_text e)])
      | Inr outspends \<Rightarrow>
          if cur_vout \<ge> int (length outspends) then
            Inr (chain @ [error_hop cur_tx cur_vout ''vout_index_out_of_range'' ''vout_index_out_of_range''])
          else
            (case py_index outspends cur_vout of
               Inl e \<Rightarrow> Inl e
             | Inr out \<Rightarrow>
                 (let chain' = chain @ [hop_record prov force_vout cur_tx cur_vout out] in
                  if \<not> os_spent out \<or> \<not> truthy (os_txid out) then Inr chain'
                  else trace_loop prov force_vout hops (the (os_txid out)) 0 chain')))"

definition trace_peel_chain ::
  "provider \<Rightarrow> string \<Rightarrow> int \<Rightarrow> int \<Rightarrow> bool \<Rightarrow> py_exception + peel_hop list" where
  "trace_peel_chain prov start_txid start_vout max_hops force_vout =
     trace_loop prov force_vout (nat max_hops) start_txid start_vout []"

section \<open>Peel-chain scorer: compute_peel_score\<close>







section \<open>Cluster driver: cluster_from_address\<close>




text \<open>Lines 1312 to 1317: the input addresses that are present and not empty.\<close>

definition known_inputs :: "tx_json \<Rightarrow> string list" where
  "known_inputs tx = truthy_fields prev_address (vin tx)"










subsection \<open>What the driver is expected to report\<close>






section \<open>Concrete inputs\<close>

text \<open>A standard output, and an input spending one.\<close>

definition std_out :: "string \<Rightarrow> string \<Rightarrow> nat \<Rightarrow> txout" where
  "std_out a ty v = \<lparr> scriptpubkey_address = Some a, scriptpubkey_type = Some ty, out_value = v \<rparr>"

definition std_in :: "string \<Rightarrow> string \<Rightarrow> nat \<Rightarrow> txin" where
  "std_in a ty v = \<lparr> prevout = Some (std_out a ty v) \<rparr>"






text \<open>
  Two transactions, each spending one output with a standard address (\<open>A\<close>, \<open>B\<close>) and one
  pay-to-pubkey output, for which the provider reports no address; and a provider that
  knows both.
\<close>

definition p2pk_in :: "nat \<Rightarrow> txin" where
  "p2pk_in v = \<lparr> prevout = Some \<lparr> scriptpubkey_address = None, scriptpubkey_type = Some ''p2pk'',
                                   out_value = v \<rparr> \<rparr>"

definition tx_unknown_a :: tx_json where
  "tx_unknown_a = \<lparr> txid = ''ta'', vin = [std_in ''A'' ''p2pkh'' 600, p2pk_in 500],
                     vout = [std_out ''X'' ''p2pkh'' 1000] \<rparr>"

definition tx_unknown_b :: tx_json where
  "tx_unknown_b = \<lparr> txid = ''tb'', vin = [std_in ''B'' ''p2pkh'' 700, p2pk_in 400],
                     vout = [std_out ''Y'' ''p2pkh'' 1000] \<rparr>"

definition prov_unknown_inputs :: provider where
  "prov_unknown_inputs =
     \<lparr> get_tx_json = (\<lambda>t. if t = ''ta'' then Inr tx_unknown_a
                           else if t = ''tb'' then Inr tx_unknown_b
                           else Inl (ProviderError ''404 Not Found'')),
       get_outspends = (\<lambda>t. Inl (ProviderError ''404 Not Found'')) \<rparr>"

text \<open>
  A transaction \<open>p1\<close> with two outputs, both unspent, and a provider that knows it. The
  spend-status entries carry no value, as the provider's \<open>outspends\<close> answers do.
\<close>

definition unspent_out :: outspend where
  "unspent_out = \<lparr> os_spent = False, os_txid = None, os_vin = None, os_value = None \<rparr>"

definition tx_two_outputs :: tx_json where
  "tx_two_outputs = \<lparr> txid = ''p1'', vin = [std_in ''S'' ''p2wpkh'' 100000],
                       vout = [std_out ''C'' ''p2wpkh'' 80000, std_out ''P'' ''p2wpkh'' 19000] \<rparr>"

definition prov_peel :: provider where
  "prov_peel =
     \<lparr> get_tx_json = (\<lambda>t. if t = ''p1'' then Inr tx_two_outputs else Inl (ProviderError ''404 Not Found'')),
       get_outspends = (\<lambda>t. if t = ''p1'' then Inr [unspent_out, unspent_out]
                             else Inl (ProviderError ''404 Not Found'')) \<rparr>"



text \<open>
  Transactions with one input of 0.01 BTC of type \<open>p2wpkh\<close> and one output close to
  the input value: of the same script type, and of another script type.
\<close>

definition tx_single_change :: tx_json where
  "tx_single_change = \<lparr> txid = ''c1'', vin = [std_in ''S'' ''p2wpkh'' 1000000],
                         vout = [std_out ''C'' ''p2wpkh'' 990000] \<rparr>"

definition tx_single_other :: tx_json where
  "tx_single_other = \<lparr> txid = ''c2'', vin = [std_in ''S'' ''p2wpkh'' 1000000],
                        vout = [std_out ''C'' ''p2pkh'' 990000] \<rparr>"



text \<open>
  A provider whose spend-status query answers with one unspent output for every
  transaction and whose transaction fetch always fails.
\<close>

definition prov_no_tx :: provider where
  "prov_no_tx =
     \<lparr> get_tx_json = (\<lambda>t. Inl (ProviderError ''timeout'')),
       get_outspends = (\<lambda>t. Inr [unspent_out]) \<rparr>"

subsection \<open>Facts about roots\<close>

lemma root_of_is_root: "root_of p a r \<Longrightarrow> map_of p r = Some r"
  by (induction rule: root_of.induct) auto

lemma root_of_key: "root_of p a r \<Longrightarrow> a \<in> fst ` set p"
  by (induction rule: root_of.induct) (auto dest: map_of_SomeD intro: rev_image_eqI)

lemma root_of_functional: "root_of p a r \<Longrightarrow> root_of p a s \<Longrightarrow> r = s"
proof (induction arbitrary: s rule: root_of.induct)
  case (self a)
  then show ?case by (auto elim: root_of.cases)
next
  case (up a b r)
  from up.prems up.hyps show ?case
    by (auto elim!: root_of.cases[of p a s] intro: up.IH)
qed

lemma map_of_update: "map_of (AList.update k v al) = (map_of al)(k \<mapsto> v)"
  by (rule update_conv')

lemma keys_update_present:
  "k \<in> fst ` set al \<Longrightarrow> map fst (AList.update k v al) = map fst al"
  by (induction al) auto

lemma keys_update_absent:
  "k \<notin> fst ` set al \<Longrightarrow> map fst (AList.update k v al) = map fst al @ [k]"
  by (induction al) auto

text \<open>Path compression: pointing a key straight at its root keeps every root.\<close>

lemma root_of_compress:
  assumes a: "root_of p a r" and x: "root_of p x s"
  shows "root_of (AList.update a r p) x s"
  using x
proof (induction rule: root_of.induct)
  case (self x)
  show ?case
  proof (cases "x = a")
    case True
    with self a have "r = a" by (auto dest: root_of_functional intro: root_of.self)
    with True show ?thesis by (auto intro: root_of.self simp: map_of_update)
  next
    case False
    with self show ?thesis by (auto intro: root_of.self simp: map_of_update)
  qed
next
  case (up x y s)
  show ?case
  proof (cases "x = a")
    case True
    have "root_of p x s" using up.hyps by (auto intro: root_of.up)
    with True a have rs: "r = s" by (auto dest: root_of_functional)
    have rr: "map_of p r = Some r" using a by (rule root_of_is_root)
    with up.hyps True have ra: "r \<noteq> a" by auto
    have "root_of (AList.update a r p) r r"
      using rr ra by (auto intro: root_of.self simp: map_of_update)
    then show ?thesis using True ra rs
      by (auto intro: root_of.up simp: map_of_update)
  next
    case False
    with up show ?thesis by (auto intro: root_of.up simp: map_of_update)
  qed
qed

text \<open>A key seen for the first time becomes a root of its own and disturbs nobody.\<close>

lemma root_of_fresh:
  assumes "map_of p a = None" and "root_of p x s"
  shows "root_of (AList.update a a p) x s"
  using assms(2)
proof (induction rule: root_of.induct)
  case (self x)
  with assms(1) show ?case by (auto intro: root_of.self simp: map_of_update)
next
  case (up x y s)
  with assms(1) have "x \<noteq> a" by auto
  then have "map_of (AList.update a a p) x = Some y"
    using up.hyps by (simp add: map_of_update)
  then show ?case using up.hyps(2) up.IH by (blast intro: root_of.up)
qed

text \<open>Linking the root \<open>rb\<close> under another root \<open>ra\<close>.\<close>

lemma root_of_link:
  assumes ra: "map_of p ra = Some ra" and rb: "map_of p rb = Some rb" and ne: "ra \<noteq> rb"
    and x: "root_of p x s"
  shows "root_of (AList.update rb ra p) x (if s = rb then ra else s)"
  using x
proof (induction rule: root_of.induct)
  case (self x)
  have "root_of (AList.update rb ra p) ra ra"
    using ra ne by (auto intro: root_of.self simp: map_of_update)
  then show ?case using self ne
    by (auto intro: root_of.self root_of.up simp: map_of_update)
next
  case (up x y s)
  with rb have "x \<noteq> rb" by auto
  with up show ?case by (auto intro: root_of.up simp: map_of_update)
qed


subsection \<open>find and union on a forest\<close>

lemma uf_find_at_root: "map_of p a = Some a \<Longrightarrow> uf_find a p = Some (a, p)"
  by (subst uf_find.simps) simp

lemma uf_find_fresh: "map_of p a = None \<Longrightarrow> uf_find a p = Some (a, AList.update a a p)"
  by (subst uf_find.simps) simp

lemma uf_find_up:
  "map_of p a = Some b \<Longrightarrow> b \<noteq> a \<Longrightarrow> uf_find b p = Some (r, p') \<Longrightarrow>
   uf_find a p = Some (r, AList.update a r p')"
  by (subst uf_find.simps) simp

lemma uf_find_of_key:
  assumes "root_of p a r"
  shows "\<exists>p'. uf_find a p = Some (r, p') \<and> map fst p' = map fst p \<and>
           (\<forall>x s. root_of p x s \<longrightarrow> root_of p' x s)"
  using assms
proof (induction rule: root_of.induct)
  case (self a)
  then show ?case by (auto simp: uf_find_at_root)
next
  case (up a b r)
  then obtain p' where f: "uf_find b p = Some (r, p')" and k: "map fst p' = map fst p"
    and kept: "\<forall>x s. root_of p x s \<longrightarrow> root_of p' x s" by blast
  have ar: "root_of p a r" using up.hyps by (auto intro: root_of.up)
  then have ar': "root_of p' a r" using kept by blast
  have "a \<in> fst ` set p'" using ar' by (rule root_of_key)
  then have k': "map fst (AList.update a r p') = map fst p"
    using k by (simp add: keys_update_present)
  have "\<forall>x s. root_of p x s \<longrightarrow> root_of (AList.update a r p') x s"
    using kept ar' by (blast intro: root_of_compress)
  with k' uf_find_up[OF up.hyps(1,2) f] show ?case by blast
qed

lemma key_iff_map_of: "a \<in> fst ` set p \<longleftrightarrow> map_of p a \<noteq> None"
  by (simp add: map_of_eq_None_iff)

text \<open>
  On a forest \<open>find\<close> returns, for every argument: the root of the argument, and a
  dictionary that is again a forest, with the same keys (and the argument as a new last key
  when it was not one) and in which every key kept its root.
\<close>

lemma uf_find_forest:
  assumes inv: "uf_forest p"
  shows "\<exists>r p'. uf_find a p = Some (r, p') \<and> uf_forest p' \<and> root_of p' a r \<and>
           map fst p' = map fst p @ (if a \<in> fst ` set p then [] else [a]) \<and>
           (\<forall>x s. root_of p x s \<longrightarrow> root_of p' x s)"
proof (cases "a \<in> fst ` set p")
  case True
  with inv obtain r where r: "root_of p a r" unfolding uf_forest_def by blast
  from uf_find_of_key[OF r] obtain p' where f: "uf_find a p = Some (r, p')"
    and k: "map fst p' = map fst p" and kept: "\<forall>x s. root_of p x s \<longrightarrow> root_of p' x s"
    by blast
  have "set (map fst p') = set (map fst p)" using k by simp
  then have "fst ` set p' = fst ` set p" by simp
  then have "uf_forest p'" using inv kept unfolding uf_forest_def by blast
  with f k kept r True show ?thesis by auto
next
  case False
  then have n: "map_of p a = None" by (simp add: key_iff_map_of)
  let ?p' = "AList.update a a p"
  have f: "uf_find a p = Some (a, ?p')" using n by (rule uf_find_fresh)
  have kept: "\<forall>x s. root_of p x s \<longrightarrow> root_of ?p' x s"
    using n by (blast intro: root_of_fresh)
  have aa: "root_of ?p' a a" by (auto intro: root_of.self simp: map_of_update)
  have k: "map fst ?p' = map fst p @ [a]" using False by (rule keys_update_absent)
  have "uf_forest ?p'"
    unfolding uf_forest_def
  proof
    fix x assume "x \<in> fst ` set ?p'"
    then have "x = a \<or> x \<in> fst ` set p" by (simp add: dom_update)
    then show "\<exists>r. root_of ?p' x r"
    proof
      assume "x = a" with aa show ?thesis by blast
    next
      assume "x \<in> fst ` set p"
      with inv obtain r where "root_of p x r" unfolding uf_forest_def by blast
      with kept show ?thesis by blast
    qed
  qed
  with f kept aa k False show ?thesis by auto
qed

lemma uf_union_forest:
  assumes inv: "uf_forest p"
  shows "\<exists>p'. uf_union a b p = Some p' \<and> uf_forest p' \<and> same_cluster p' a b \<and>
           (\<forall>x y. same_cluster p x y \<longrightarrow> same_cluster p' x y)"
proof -
  from uf_find_forest[OF inv, of a] obtain ra p1 where
    f1: "uf_find a p = Some (ra, p1)" and inv1: "uf_forest p1" and a1: "root_of p1 a ra"
    and kept1: "\<forall>x s. root_of p x s \<longrightarrow> root_of p1 x s" by blast
  from uf_find_forest[OF inv1, of b] obtain rb p2 where
    f2: "uf_find b p1 = Some (rb, p2)" and inv2: "uf_forest p2" and b2: "root_of p2 b rb"
    and kept2: "\<forall>x s. root_of p1 x s \<longrightarrow> root_of p2 x s" by blast
  have a2: "root_of p2 a ra" using a1 kept2 by blast
  have kept: "\<forall>x s. root_of p x s \<longrightarrow> root_of p2 x s" using kept1 kept2 by blast
  show ?thesis
  proof (cases "ra = rb")
    case True
    then have u: "uf_union a b p = Some p2" using f1 f2 by (simp add: uf_union_def)
    have "same_cluster p2 a b" using a2 b2 True unfolding same_cluster_def by blast
    moreover have "\<forall>x y. same_cluster p x y \<longrightarrow> same_cluster p2 x y"
      using kept unfolding same_cluster_def by blast
    ultimately show ?thesis using u inv2 by blast
  next
    case False
    let ?p' = "AList.update rb ra p2"
    have u: "uf_union a b p = Some ?p'" using f1 f2 False by (simp add: uf_union_def)
    have ra: "map_of p2 ra = Some ra" using a2 by (rule root_of_is_root)
    have rb: "map_of p2 rb = Some rb" using b2 by (rule root_of_is_root)
    have link: "\<And>x s. root_of p2 x s \<Longrightarrow> root_of ?p' x (if s = rb then ra else s)"
      using ra rb False by (rule root_of_link)
    have "rb \<in> fst ` set p2" using rb by (simp add: key_iff_map_of)
    then have "fst ` set ?p' = fst ` set p2" by (auto simp: dom_update)
    then have inv': "uf_forest ?p'" using inv2 link unfolding uf_forest_def by blast
    have "root_of ?p' a ra" using link[OF a2] False by simp
    moreover have "root_of ?p' b ra" using link[OF b2] by simp
    ultimately have ab: "same_cluster ?p' a b" unfolding same_cluster_def by blast
    have "\<forall>x y. same_cluster p x y \<longrightarrow> same_cluster ?p' x y"
      using kept link unfolding same_cluster_def by blast
    with u inv' ab show ?thesis by blast
  qed
qed






section \<open>Change-output scorers: weights and the sole-positive boost\<close>

lemma py_round_of_int: "py_round (of_int k :: rat) = k"
  by (simp add: py_round_def)

lemma round_to_twentieth:
  "n = 3 \<or> n = 4 \<Longrightarrow> round_to n (rat_of_int m / 20) = rat_of_int m / 20"
proof -
  assume n: "n = 3 \<or> n = 4"
  have "rat_of_int m / 20 * 10 ^ n = rat_of_int (m * (if n = 3 then 50 else 500))"
    using n by auto
  then show ?thesis unfolding round_to_def using n
    by (auto simp only: py_round_of_int) auto
qed

lemma prevout_values_map: "prevout_values ins = Inr vs \<Longrightarrow> vs = map prev_value ins"
  by (induction ins arbitrary: vs) (auto simp: prev_value_def split: option.splits sum.splits)

text \<open>The score of one output in the simple scorer, as a sum of its three signals.\<close>

lemma simple_score_of_sum:
  "s_score (simple_score_of vin_addrs maj max_in idx out) =
     (if truthy (scriptpubkey_address out) \<and> the (scriptpubkey_address out) \<in> set vin_addrs then 4 / 10 else 0)
     + (if truthy maj \<and> scriptpubkey_type out = maj then 2 / 10 else 0)
     + (if max_in > 0 \<and> rat_of_nat (out_value out) < rat_of_nat max_in * (95 / 100) \<and> out_value out > 0
        then 2 / 10 else 0)"
  unfolding simple_score_of_def Let_def
  by (simp add: round_to_def py_round_def)

lemma detailed_clamp_round:
  "round_to 3 (max (- 1) (min 1 ((if a then 20 / 100 else 0) - (if b then 15 / 100 else 0)
      + (if c then 15 / 100 else 0) + (if d then 10 / 100 else 0) - (if e then 20 / 100 else (0::rat)))))
   = (if a then 20 / 100 else 0) - (if b then 15 / 100 else 0)
      + (if c then 15 / 100 else 0) + (if d then 10 / 100 else 0) - (if e then 20 / 100 else 0)"
  by (cases a; cases b; cases c; cases d; cases e) (simp_all add: round_to_def py_round_def)

lemma candidate_of_raw:
  "score (candidate_of cj maj total_in idx v) =
     round_to 3 (max (- 1) (min 1 (
     (if dec_len (out_value v) \<ge> 6 then 20 / 100 else 0)
     - (if trailing_zeros_in_sats (out_value v) \<ge> 5 then 15 / 100 else 0)
     + (if truthy maj \<and> scriptpubkey_type v = maj then 15 / 100 else 0)
     + (if total_in > 0 \<and> 0 < out_value v \<and> rat_of_nat (out_value v) < rat_of_nat total_in * (95 / 100)
        then 10 / 100 else 0)
     - (if cj then 20 / 100 else 0))))"
proof -
  define a where "a = (dec_len (out_value v) \<ge> 6)"
  define b where "b = (trailing_zeros_in_sats (out_value v) \<ge> 5)"
  define c where "c = (truthy maj \<and> scriptpubkey_type v = maj)"
  define d where "d = (total_in > 0 \<and> 0 < out_value v \<and> rat_of_nat (out_value v) < rat_of_nat total_in * (95 / 100))"
  show ?thesis
    unfolding candidate_of_def Let_def a_def[symmetric] b_def[symmetric] c_def[symmetric] d_def[symmetric]
    by (cases a; cases b; cases c; cases d; cases cj) (simp_all only: if_True if_False split_conv candidate.simps, simp_all)
qed

lemma candidate_of_sum:
  "score (candidate_of cj maj total_in idx v) =
     (if dec_len (out_value v) \<ge> 6 then 20 / 100 else 0)
     - (if trailing_zeros_in_sats (out_value v) \<ge> 5 then 15 / 100 else 0)
     + (if truthy maj \<and> scriptpubkey_type v = maj then 15 / 100 else 0)
     + (if total_in > 0 \<and> 0 < out_value v \<and> rat_of_nat (out_value v) < rat_of_nat total_in * (95 / 100)
        then 10 / 100 else 0)
     - (if cj then 20 / 100 else 0)"
  unfolding candidate_of_raw by (rule detailed_clamp_round)

lemma nth_map_enumerate:
  "idx < length xs \<Longrightarrow> map (\<lambda>(i, x). f i x) (enumerate 0 xs) ! idx = f idx (xs ! idx)"
  by (simp add: nth_enumerate_eq)

lemma simple_main_pass_nth:
  assumes "simple_main_pass tx = Inr scores" and "idx < length (vout tx)"
  shows "scores ! idx = simple_score_of (present_fields prev_address (vin tx))
           (majority_of (present_fields prev_type (vin tx))) (largest_input tx) idx (vout tx ! idx)"
proof -
  from assms(1) obtain vs where vs: "prevout_values (vin tx) = Inr vs"
    by (auto simp: simple_main_pass_def Let_def split: sum.splits)
  then have m: "vs = map prev_value (vin tx)" by (rule prevout_values_map)
  from assms(1) vs have "scores = map (\<lambda>(i, out). simple_score_of (present_fields prev_address (vin tx))
           (majority_of (present_fields prev_type (vin tx))) (largest_input tx) i out) (enumerate 0 (vout tx))"
    by (simp add: simple_main_pass_def Let_def majority_of_def largest_input_def m)
  then show ?thesis using assms(2) by (simp only: nth_map_enumerate)
qed

lemma detailed_main_pass_nth:
  assumes "detailed_main_pass tx = Inr cands" and "idx < length (vout tx)"
  shows "cands ! idx = candidate_of (is_coinjoin_like (map out_value (vout tx)))
           (majority_of (truthy_fields prev_type (vin tx))) (total_input tx) idx (vout tx ! idx)"
proof -
  from assms(1) obtain vs where vs: "prevout_values (vin tx) = Inr vs"
    by (auto simp: detailed_main_pass_def Let_def split: sum.splits)
  then have m: "vs = map prev_value (vin tx)" by (rule prevout_values_map)
  from assms(1) vs have "cands = map (\<lambda>(i, v). candidate_of (is_coinjoin_like (map out_value (vout tx)))
           (majority_of (truthy_fields prev_type (vin tx))) (total_input tx) i v) (enumerate 0 (vout tx))"
    by (simp add: detailed_main_pass_def Let_def majority_of_def total_input_def m)
  then show ?thesis using assms(2) by (simp only: nth_map_enumerate)
qed

lemma main_pass_lengths:
  "simple_main_pass tx = Inr scores \<Longrightarrow> length scores = length (vout tx)"
  "detailed_main_pass tx = Inr cands \<Longrightarrow> length cands = length (vout tx)"
  by (auto simp: simple_main_pass_def detailed_main_pass_def Let_def split: sum.splits)


lemma upt_0_8: "[0..<8] = [0, 1, 2, 3, 4, 5, 6, 7::nat]"
  by (simp add: upt_rec)

lemma dec_len_examples: "dec_len 990000 = 4"
  by (simp add: dec_len_def btc_decimals_def upt_0_8)

lemma trailing_zeros_examples: "trailing_zeros_in_sats 990000 = 4"
  by (simp add: trailing_zeros_in_sats_def tz_loop.simps)

lemmas scorer_eval = detailed_main_pass_def simple_main_pass_def candidate_of_def simple_score_of_def
  is_coinjoin_like_def truthy_fields_def present_fields_def prev_type_def prev_address_def
  majority_def max_by_def first_occurrences_def dec_len_examples trailing_zeros_examples
  truthy_def or_else_def round_to_def py_round_def std_in_def std_out_def Let_def

lemma detailed_single_change:
  "detailed_main_pass tx_single_change =
     Inr [\<lparr> vout_index = 0, address = ''C'', value_sats = 990000, score = 15 / 100,
            flags = [''script_match''] \<rparr>]"
  by (simp add: scorer_eval tx_single_change_def)

lemma detailed_single_other:
  "detailed_main_pass tx_single_other =
     Inr [\<lparr> vout_index = 0, address = ''C'', value_sats = 990000, score = 0, flags = [] \<rparr>]"
  by (simp add: scorer_eval tx_single_other_def)

lemma simple_single_change:
  "simple_main_pass tx_single_change =
     Inr [\<lparr> s_vout_index = 0, s_address = ''C'', s_value = 990000, s_score = 2 / 10 \<rparr>]"
  by (simp add: scorer_eval tx_single_change_def)

lemma simple_single_other:
  "simple_main_pass tx_single_other =
     Inr [\<lparr> s_vout_index = 0, s_address = ''C'', s_value = 990000, s_score = 0 \<rparr>]"
  by (simp add: scorer_eval tx_single_other_def)

lemma positive_positions_bound: "positive_positions xs = [i] \<Longrightarrow> i < length xs"
proof -
  assume "positive_positions xs = [i]"
  then have "i \<in> set (filter (\<lambda>i. xs ! i > 0) [0..<length xs])"
    by (simp add: positive_positions_def)
  then show ?thesis by simp
qed

lemma filter_upt_single:
  "filter P [0..<n] = [i] \<longleftrightarrow> i < n \<and> P i \<and> (\<forall>j<n. j \<noteq> i \<longrightarrow> \<not> P j)"
proof
  assume "filter P [0..<n] = [i]"
  then have "set (filter P [0..<n]) = {i}" by simp
  then have "{j. j < n \<and> P j} = {i}" by (simp add: conj_commute)
  then show "i < n \<and> P i \<and> (\<forall>j<n. j \<noteq> i \<longrightarrow> \<not> P j)" by blast
next
  assume r: "i < n \<and> P i \<and> (\<forall>j<n. j \<noteq> i \<longrightarrow> \<not> P j)"
  define ys where "ys = filter P [0..<n]"
  have d: "distinct ys" unfolding ys_def by simp
  have "set ys = {j. j < n \<and> P j}" unfolding ys_def by (simp add: conj_commute)
  also have "\<dots> = {i}" using r by blast
  finally have s: "set ys = {i}" .
  from d have "length ys = card (set ys)" by (simp add: distinct_card)
  with s have "length ys = 1" by simp
  then obtain y where "ys = [y]" by (cases ys) auto
  with s show "filter P [0..<n] = [i]" unfolding ys_def by simp
qed

lemma positive_positions_single:
  "positive_positions xs = [i] \<longleftrightarrow>
     i < length xs \<and> 0 < xs ! i \<and> (\<forall>j<length xs. j \<noteq> i \<longrightarrow> \<not> 0 < xs ! j)"
  unfolding positive_positions_def by (rule filter_upt_single)

lemma simple_sum_le:
  "(if a then 4 / 10 else 0) + (if b then 2 / 10 else 0) + (if c then 2 / 10 else (0::rat)) \<le> 8 / 10"
  by (cases a; cases b; cases c) simp_all

lemma detailed_sum_le:
  "(if a then 20 / 100 else 0) - (if b then 15 / 100 else 0) + (if c then 15 / 100 else 0)
     + (if d then 10 / 100 else 0) - (if e then 20 / 100 else (0::rat)) \<le> 45 / 100"
  by (cases a; cases b; cases c; cases d; cases e) simp_all

lemma simple_score_bound:
  assumes "simple_main_pass tx = Inr main" and "i < length main"
  shows "s_score (main ! i) \<le> 8 / 10"
proof -
  from assms have "i < length (vout tx)" by (simp add: main_pass_lengths)
  from simple_main_pass_nth[OF assms(1) this] show ?thesis
    by (simp only: simple_score_of_sum simple_sum_le)
qed

lemma detailed_score_bound:
  assumes "detailed_main_pass tx = Inr cands" and "i < length cands"
  shows "score (cands ! i) \<le> 45 / 100"
proof -
  from assms have "i < length (vout tx)" by (simp add: main_pass_lengths)
  from detailed_main_pass_nth[OF assms(1) this] show ?thesis
    by (simp only: candidate_of_sum detailed_sum_le)
qed

lemma not_single_case:
  "length ps \<noteq> 1 \<Longrightarrow> (case ps of [i] \<Rightarrow> f i | _ \<Rightarrow> d) = d"
  by (cases ps rule: list.exhaust; simp) (cases "tl ps"; simp)

text \<open>
  Claim C8, as the code has it. When exactly one output has a strictly positive score
  after the main scoring pass, the simple scorer adds 0.15 to that score and the detailed
  scorer adds 0.12 and appends the tag \<open>sole_positive_boost\<close> to the flags of that
  output; the records of the simple scorer carry no flags and get no tag. With no positive
  score, or more than one, the result of the main pass is returned as it is.
\<close>

theorem boost_of_sole_positive:
  "(simple_main_pass tx = Inr main \<longrightarrow> positive_positions (map s_score main) = [i] \<longrightarrow>
      change_candidate_scores tx =
        Inr (main[i := (main ! i)\<lparr> s_score := s_score (main ! i) + 15 / 100 \<rparr>]))
   \<and> (simple_main_pass tx = Inr main \<longrightarrow> length (positive_positions (map s_score main)) \<noteq> 1 \<longrightarrow>
      change_candidate_scores tx = Inr main)
   \<and> (detailed_main_pass tx = Inr cands \<longrightarrow> positive_positions (map score cands) = [i] \<longrightarrow>
      detect_change_candidates_for_tx tx =
        Inr (cands[i := (cands ! i)\<lparr> score := score (cands ! i) + 12 / 100,
                                       flags := flags (cands ! i) @ [''sole_positive_boost''] \<rparr>]))
   \<and> (detailed_main_pass tx = Inr cands \<longrightarrow> length (positive_positions (map score cands)) \<noteq> 1 \<longrightarrow>
      detect_change_candidates_for_tx tx = Inr cands)
   \<and> (positive_positions xs = [i] \<longleftrightarrow>
        i < length xs \<and> 0 < xs ! i \<and> (\<forall>j<length xs. j \<noteq> i \<longrightarrow> \<not> 0 < xs ! j))"
proof (intro conjI impI)
  assume m: "simple_main_pass tx = Inr main" and p: "positive_positions (map s_score main) = [i]"
  from positive_positions_bound[OF p] have "i < length main" by simp
  from simple_score_bound[OF m this] have "min 1 (s_score (main ! i) + 15 / 100) = s_score (main ! i) + 15 / 100"
    by simp
  then show "change_candidate_scores tx =
        Inr (main[i := (main ! i)\<lparr> s_score := s_score (main ! i) + 15 / 100 \<rparr>])"
    using m p by (simp add: change_candidate_scores_def simple_boost_def)
next
  assume m: "simple_main_pass tx = Inr main" and p: "length (positive_positions (map s_score main)) \<noteq> 1"
  then show "change_candidate_scores tx = Inr main"
    by (simp add: change_candidate_scores_def simple_boost_def not_single_case)
next
  assume m: "detailed_main_pass tx = Inr cands" and p: "positive_positions (map score cands) = [i]"
  from positive_positions_bound[OF p] have "i < length cands" by simp
  from detailed_score_bound[OF m this] have "min 1 (score (cands ! i) + 12 / 100) = score (cands ! i) + 12 / 100"
    by simp
  then show "detect_change_candidates_for_tx tx =
        Inr (cands[i := (cands ! i)\<lparr> score := score (cands ! i) + 12 / 100,
                                       flags := flags (cands ! i) @ [''sole_positive_boost''] \<rparr>])"
    using m p by (simp add: detect_change_candidates_for_tx_def detailed_boost_def)
next
  assume m: "detailed_main_pass tx = Inr cands" and p: "length (positive_positions (map score cands)) \<noteq> 1"
  then show "detect_change_candidates_for_tx tx = Inr cands"
    by (simp add: detect_change_candidates_for_tx_def detailed_boost_def not_single_case)
next
  show "positive_positions xs = [i] \<longleftrightarrow>
        i < length xs \<and> 0 < xs ! i \<and> (\<forall>j<length xs. j \<noteq> i \<longrightarrow> \<not> 0 < xs ! j)"
    by (rule positive_positions_single)
qed

lemma positions_single_examples:
  "positive_positions [x] = (if 0 < x then [0] else [])"
  by (simp add: positive_positions_def)

theorem boost_of_sole_positive_witness:
  "change_candidate_scores tx_single_change =
     Inr [\<lparr> s_vout_index = 0, s_address = ''C'', s_value = 990000, s_score = 35 / 100 \<rparr>]
   \<and> change_candidate_scores tx_single_other =
     Inr [\<lparr> s_vout_index = 0, s_address = ''C'', s_value = 990000, s_score = 0 \<rparr>]
   \<and> detect_change_candidates_for_tx tx_single_change =
     Inr [\<lparr> vout_index = 0, address = ''C'', value_sats = 990000, score = 27 / 100,
            flags = [''script_match'', ''sole_positive_boost''] \<rparr>]
   \<and> detect_change_candidates_for_tx tx_single_other =
     Inr [\<lparr> vout_index = 0, address = ''C'', value_sats = 990000, score = 0, flags = [] \<rparr>]"
proof -
  note a = boost_of_sole_positive[of tx_single_change
      "[\<lparr> s_vout_index = 0, s_address = ''C'', s_value = 990000, s_score = 2 / 10 \<rparr>]" 0
      "[\<lparr> vout_index = 0, address = ''C'', value_sats = 990000, score = 15 / 100,
            flags = [''script_match''] \<rparr>]"]
  note b = boost_of_sole_positive[of tx_single_other
      "[\<lparr> s_vout_index = 0, s_address = ''C'', s_value = 990000, s_score = 0 \<rparr>]" 0
      "[\<lparr> vout_index = 0, address = ''C'', value_sats = 990000, score = 0, flags = [] \<rparr>]"]
  show ?thesis
    using a b
    by (simp add: simple_single_change simple_single_other detailed_single_change detailed_single_other
          positions_single_examples)
qed

text \<open>
  Claim C8 as stated fails in the simple scorer: the only positive score 0.2 is raised to
  0.35, and the returned record has the four fields of the main pass and no tag.
\<close>

theorem simple_boost_untagged:
  "simple_main_pass tx_single_change =
     Inr [\<lparr> s_vout_index = 0, s_address = ''C'', s_value = 990000, s_score = 2 / 10 \<rparr>]
   \<and> change_candidate_scores tx_single_change =
     Inr [\<lparr> s_vout_index = 0, s_address = ''C'', s_value = 990000, s_score = 35 / 100 \<rparr>]
   \<and> ''sole_positive_boost'' \<notin> set (simple_flags
         \<lparr> s_vout_index = 0, s_address = ''C'', s_value = 990000, s_score = 35 / 100 \<rparr>)"
  by (simp add: simple_single_change change_candidate_scores_def simple_boost_def
        positions_single_examples simple_flags_def)





section \<open>Projector: value attributed per transaction\<close>




lemma py_round_nonneg: "0 \<le> (x::rat) \<Longrightarrow> 0 \<le> py_round x"
  unfolding py_round_def Let_def by auto






























section \<open>Batch analysis: what a provider failure does\<close>

lemma union_all_forest:
  "uf_forest p \<Longrightarrow> \<exists>p'. union_all base others p = Some p' \<and> uf_forest p'"
proof (induction others arbitrary: p)
  case Nil
  then show ?case by simp
next
  case (Cons x xs)
  from uf_union_forest[OF Cons.prems, of base x] obtain p1 where
    "uf_union base x p = Some p1" "uf_forest p1" by blast
  with Cons.IH[of p1] show ?case by simp
qed

lemma union_inputs_forest:
  assumes "uf_forest p"
  shows "\<exists>p'. union_inputs inputs p = Some p' \<and> uf_forest p'"
proof (cases inputs)
  case Nil
  then show ?thesis using assms by (simp add: union_inputs_def)
next
  case (Cons a rest)
  show ?thesis
  proof (cases rest)
    case Nil
    with Cons show ?thesis using assms by (simp add: union_inputs_def)
  next
    case (Cons b rest')
    with \<open>inputs = a # rest\<close> have "union_inputs inputs p = union_all a (b # rest') p"
      by (simp add: union_inputs_def)
    then show ?thesis using union_all_forest[OF assms, of a "b # rest'"] by simp
  qed
qed



lemma prevout_values_ok:
  "(\<forall>i \<in> set ins. prevout i \<noteq> None) \<Longrightarrow> \<exists>vs. prevout_values ins = Inr vs"
  by (induction ins) auto

lemma prevout_values_null:
  "(\<exists>i \<in> set ins. prevout i = None) \<Longrightarrow> prevout_values ins = Inl AttributeError"
proof (induction ins)
  case Nil
  then show ?case by simp
next
  case (Cons i ins)
  show ?case
  proof (cases "prevout i")
    case None
    then show ?thesis by simp
  next
    case (Some p)
    with Cons.prems have "\<exists>j \<in> set ins. prevout j = None" by auto
    with Cons.IH Some show ?thesis by simp
  qed
qed

lemma detect_ok:
  "(\<forall>i \<in> set (vin tx). prevout i \<noteq> None) \<Longrightarrow> \<exists>cs. detect_change_candidates_for_tx tx = Inr cs"
  using prevout_values_ok[of "vin tx"]
  by (auto simp: detect_change_candidates_for_tx_def detailed_main_pass_def Let_def)

lemma detect_null:
  "(\<exists>i \<in> set (vin tx). prevout i = None) \<Longrightarrow> detect_change_candidates_for_tx tx = Inl AttributeError"
  using prevout_values_null[of "vin tx"]
  by (auto simp: detect_change_candidates_for_tx_def detailed_main_pass_def Let_def)

lemma process_one_blank: "py_strip raw = [] \<Longrightarrow> process_one prov raw st = Some (Inr st)"
  by (simp add: process_one_def)

lemma process_one_fetch_fails:
  "py_strip raw \<noteq> [] \<Longrightarrow> get_tx_json prov (py_strip raw) = Inl e \<Longrightarrow>
   process_one prov raw st = Some (Inl e)"
  by (simp add: process_one_def)

lemma process_one_step:
  assumes "py_strip raw \<noteq> []" and "get_tx_json prov (py_strip raw) = Inr tx"
    and "\<forall>i \<in> set (vin tx). prevout i \<noteq> None"
    and "union_inputs (batch_inputs tx) (uf st) = Some p'"
  shows "\<exists>flag. process_one prov raw st =
            Some (Inr \<lparr> bip_edges = add_bipartite_edges_for_tx tx (bip_edges st), uf = p',
                        tx_flags = tx_flags st @ [flag] \<rparr>) \<and> f_txid flag = py_strip raw"
proof -
  from detect_ok[OF assms(3)] obtain cs where cs: "detect_change_candidates_for_tx tx = Inr cs" by blast
  show ?thesis using assms(1,2,4) cs
    by (simp add: process_one_def Let_def split: prod.splits)
qed

lemma process_one_ok:
  assumes "py_strip raw \<noteq> []" and "get_tx_json prov (py_strip raw) = Inr tx"
    and "\<forall>i \<in> set (vin tx). prevout i \<noteq> None" and "uf_forest (uf st)"
  shows "\<exists>st'. process_one prov raw st = Some (Inr st') \<and> uf_forest (uf st') \<and>
           map f_txid (tx_flags st') = map f_txid (tx_flags st) @ [py_strip raw]"
proof -
  from union_inputs_forest[OF assms(4), of "batch_inputs tx"] obtain p' where
    p': "union_inputs (batch_inputs tx) (uf st) = Some p'" "uf_forest p'" by blast
  from process_one_step[OF assms(1,2,3) p'(1)] p'(2) show ?thesis by auto
qed

lemma process_one_total:
  assumes "uf_forest (uf st)"
  shows "(\<exists>e. process_one prov raw st = Some (Inl e)) \<or>
         (\<exists>st'. process_one prov raw st = Some (Inr st') \<and> uf_forest (uf st'))"
proof (cases "py_strip raw = []")
  case True
  with assms show ?thesis by (simp add: process_one_blank)
next
  case False
  show ?thesis
  proof (cases "get_tx_json prov (py_strip raw)")
    case (Inl e)
    with False show ?thesis by (simp add: process_one_fetch_fails)
  next
    case (Inr tx)
    show ?thesis
    proof (cases "\<forall>i \<in> set (vin tx). prevout i \<noteq> None")
      case True
      from process_one_ok[OF False Inr True assms] show ?thesis by blast
    next
      case False
      then have "detect_change_candidates_for_tx tx = Inl AttributeError"
        by (intro detect_null) auto
      with \<open>py_strip raw \<noteq> []\<close> Inr show ?thesis
        by (simp add: process_one_def Let_def split: prod.splits)
    qed
  qed
qed

lemma process_loop_total:
  "uf_forest (uf st) \<Longrightarrow>
   (\<exists>e. process_loop prov ts st = Some (Inl e)) \<or>
   (\<exists>st'. process_loop prov ts st = Some (Inr st') \<and> uf_forest (uf st'))"
proof (induction ts arbitrary: st)
  case Nil
  then show ?case by simp
next
  case (Cons t ts)
  from process_one_total[OF Cons.prems, of prov t] show ?case
  proof
    assume "\<exists>e. process_one prov t st = Some (Inl e)"
    then show ?thesis by auto
  next
    assume "\<exists>st'. process_one prov t st = Some (Inr st') \<and> uf_forest (uf st')"
    then obtain st' where s: "process_one prov t st = Some (Inr st')" "uf_forest (uf st')" by blast
    from Cons.IH[OF s(2)] s(1) show ?thesis by simp
  qed
qed









section \<open>Batch analysis: unknown input addresses\<close>

lemma strip_ta: "py_strip ''ta'' = ''ta''" and strip_tb: "py_strip ''tb'' = ''tb''"
  by (simp_all add: py_strip_def is_space_def)

lemma inputs_a: "batch_inputs tx_unknown_a = [''A'', ''UNKNOWN_INPUT'']"
  by (simp add: batch_inputs_def tx_unknown_a_def std_in_def std_out_def p2pk_in_def prev_address_def or_else_def)

lemma inputs_b: "batch_inputs tx_unknown_b = [''B'', ''UNKNOWN_INPUT'']"
  by (simp add: batch_inputs_def tx_unknown_b_def std_in_def std_out_def p2pk_in_def prev_address_def or_else_def)

lemma unions_a: "union_inputs [''A'', ''UNKNOWN_INPUT''] uf_init = Some [(''A'', ''A''), (''UNKNOWN_INPUT'', ''A'')]"
  by code_simp

lemma unions_b: "union_inputs [''B'', ''UNKNOWN_INPUT''] [(''A'', ''A''), (''UNKNOWN_INPUT'', ''A'')]
   = Some [(''A'', ''B''), (''UNKNOWN_INPUT'', ''A''), (''B'', ''B'')]"
  by code_simp

lemma groups_ab: "map_option fst (uf_groups [(''A'', ''B''), (''UNKNOWN_INPUT'', ''A''), (''B'', ''B'')])
   = Some [(''B'', [''A'', ''UNKNOWN_INPUT'', ''B''])]"
  by code_simp

text \<open>
  Claim C2 on the batch path. The batch loop replaces an unknown input address by the
  one string \<open>UNKNOWN_INPUT\<close> and unions it like an address. Two unrelated transactions
  that each spend an output without an address end up in one cluster: \<open>A\<close>, \<open>B\<close> and
  the placeholder. (The cluster driver drops unknown addresses before the unions.)
\<close>

theorem batch_merges_through_unknown_input:
  "\<exists>res. process_txids prov_unknown_inputs [''ta'', ''tb''] = Some (Inr res) \<and>
         r_clusters res = [(''B'', [''A'', ''UNKNOWN_INPUT'', ''B''])]"
proof -
  let ?st0 = "\<lparr> bip_edges = [], uf = uf_init, tx_flags = [] \<rparr>"
  have oka: "\<forall>i \<in> set (vin tx_unknown_a). prevout i \<noteq> None"
    by (simp add: tx_unknown_a_def std_in_def p2pk_in_def)
  have okb: "\<forall>i \<in> set (vin tx_unknown_b). prevout i \<noteq> None"
    by (simp add: tx_unknown_b_def std_in_def p2pk_in_def)
  from process_one_step[of "''ta''" prov_unknown_inputs tx_unknown_a ?st0, OF _ _ oka]
  obtain f1 where 1: "process_one prov_unknown_inputs ''ta'' ?st0 =
      Some (Inr \<lparr> bip_edges = add_bipartite_edges_for_tx tx_unknown_a [],
                  uf = [(''A'', ''A''), (''UNKNOWN_INPUT'', ''A'')], tx_flags = [f1] \<rparr>)"
    by (auto simp: strip_ta prov_unknown_inputs_def inputs_a unions_a)
  let ?st1 = "\<lparr> bip_edges = add_bipartite_edges_for_tx tx_unknown_a [],
                  uf = [(''A'', ''A''), (''UNKNOWN_INPUT'', ''A'')], tx_flags = [f1] \<rparr>"
  from process_one_step[of "''tb''" prov_unknown_inputs tx_unknown_b ?st1, OF _ _ okb]
  obtain f2 where 2: "process_one prov_unknown_inputs ''tb'' ?st1 =
      Some (Inr \<lparr> bip_edges = add_bipartite_edges_for_tx tx_unknown_b (add_bipartite_edges_for_tx tx_unknown_a []),
                  uf = [(''A'', ''B''), (''UNKNOWN_INPUT'', ''A''), (''B'', ''B'')], tx_flags = [f1, f2] \<rparr>)"
    by (auto simp: strip_tb prov_unknown_inputs_def inputs_b unions_b)
  from groups_ab obtain p' where
    g: "uf_groups [(''A'', ''B''), (''UNKNOWN_INPUT'', ''A''), (''B'', ''B'')]
         = Some ([(''B'', [''A'', ''UNKNOWN_INPUT'', ''B''])], p')" by auto
  show ?thesis by (simp add: process_txids_def 1 2 g)
qed

lemma driver_skips_unknown_input:
  "known_inputs tx_unknown_a = [''A''] \<and> union_inputs (known_inputs tx_unknown_a) uf_init = Some uf_init"
  by (simp add: known_inputs_def truthy_fields_def tx_unknown_a_def std_in_def std_out_def p2pk_in_def
        prev_address_def union_inputs_def)

section \<open>Peel-chain tracer: value resolution and indices\<close>

lemma truthy_Some [simp]: "truthy (Some s) = (s \<noteq> [])" and truthy_None [simp]: "\<not> truthy None"
  by (simp_all add: truthy_def)

lemma lookup_declared_eq:
  "lookup_declared prov cur_tx cur_vout (v0, None) =
     (case declared_value prov cur_tx cur_vout of
        Inr d \<Rightarrow> (Some d, Some ''tx_vout'')
      | Inl failure \<Rightarrow> (v0, Some failure))"
  by (simp add: lookup_declared_def declared_value_def split: sum.splits)

lemma declared_value_tags:
  "declared_value prov cur_tx cur_vout = Inl failure \<Longrightarrow>
   failure = ''tx_vout_error'' \<or> failure = ''tx_vout_missing_index''"
  by (auto simp: declared_value_def split: sum.splits if_splits)

lemma proxy_spent_eq:
  "proxy_spent prov out (v, tag) =
     (case spending_largest prov out of
        Proxy m \<Rightarrow> (Some m, Some ''proxy_spent_largest'')
      | ProxyError \<Rightarrow> (v, Some ''proxy_error'')
      | NoProxy \<Rightarrow> (v, tag))"
  by (simp add: proxy_spent_def spending_largest_def split: sum.splits)

lemma resolve_value_is_table:
  "resolve_value prov force_vout cur_tx cur_vout out = resolve_value_table prov force_vout cur_tx cur_vout out"
proof (cases "\<not> force_vout \<and> \<not> falsy (os_value out)")
  case True
  then show ?thesis
    by (auto simp: resolve_value_def resolve_value_table_def falsy_def Let_def)
next
  case False
  then have look: "force_vout \<or> falsy (os_value out)" by blast
  show ?thesis
  proof (cases "declared_value prov cur_tx cur_vout")
    case (Inr d)
    with look show ?thesis
      by (cases "spending_largest prov out")
         (auto simp: resolve_value_def resolve_value_table_def Let_def lookup_declared_eq
            proxy_spent_eq falsy_def)
  next
    case (Inl failure)
    then have ne: "failure \<noteq> []" using declared_value_tags by fastforce
    with Inl look show ?thesis
      by (cases "spending_largest prov out"; cases "os_value out")
         (auto simp: resolve_value_def resolve_value_table_def Let_def lookup_declared_eq
            proxy_spent_eq falsy_def)
  qed
qed

lemma resolve_value_table_tags:
  "snd (resolve_value_table prov force_vout cur_tx cur_vout out) \<in>
     {None, Some ''tx_vout'', Some ''tx_vout_error'', Some ''tx_vout_missing_index'',
      Some ''proxy_spent_largest'', Some ''proxy_error''}"
proof (cases "declared_value prov cur_tx cur_vout")
  case (Inl failure)
  with declared_value_tags[OF Inl] show ?thesis
    by (cases "spending_largest prov out") (auto simp: resolve_value_table_def Let_def)
next
  case (Inr d)
  then show ?thesis
    by (cases "spending_largest prov out") (auto simp: resolve_value_table_def Let_def)
qed

text \<open>
  Claim C5, as the code has it. The value of a hop is resolved in this order: (1) with
  forced look-up off, the value of the spend-status entry when it is a number other than
  zero, with no provenance tag; (2) otherwise the declared value of the output in the
  source transaction, tagged \<open>tx_vout\<close>, and when that look-up fails the tag
  \<open>tx_vout_error\<close> or \<open>tx_vout_missing_index\<close> with the spend-status value kept; (3) while
  the value is absent or zero and the output is spent in a recorded transaction, the largest
  output value of the spending transaction when positive, tagged \<open>proxy_spent_largest\<close>,
  or the tag \<open>proxy_error\<close> when its fetch fails; (4) otherwise the value 0 with the tag
  step (2) left. The hop records this value and this tag, and the tags \<open>unknown\<close> and
  \<open>outspends\<close> are never produced.
\<close>

theorem resolve_value_fallback_chain:
  "resolve_value prov force_vout cur_tx cur_vout out = resolve_value_table prov force_vout cur_tx cur_vout out
   \<and> hop_value_sats (hop_record prov force_vout cur_tx cur_vout out)
       = Some (fst (resolve_value_table prov force_vout cur_tx cur_vout out))
   \<and> value_source (hop_record prov force_vout cur_tx cur_vout out)
       = snd (resolve_value_table prov force_vout cur_tx cur_vout out)
   \<and> snd (resolve_value prov force_vout cur_tx cur_vout out) \<noteq> Some ''unknown''
   \<and> snd (resolve_value prov force_vout cur_tx cur_vout out) \<noteq> Some ''outspends''"
proof -
  have h: "hop_value_sats (hop_record prov force_vout cur_tx cur_vout out)
             = Some (fst (resolve_value prov force_vout cur_tx cur_vout out))"
    "value_source (hop_record prov force_vout cur_tx cur_vout out)
             = snd (resolve_value prov force_vout cur_tx cur_vout out)"
    by (simp_all add: hop_record_def split_def Let_def)
  show ?thesis
    using resolve_value_table_tags[of prov force_vout cur_tx cur_vout out]
    unfolding h resolve_value_is_table by auto
qed

text \<open>
  Claim C5 as stated fails in its last case: the spend-status entry has no value, the
  fetch of the source transaction fails and the output is unspent, so the value is 0, but
  the provenance of the hop is \<open>tx_vout_error\<close>, not \<open>unknown\<close>.
\<close>

theorem resolve_value_not_unknown:
  "os_value unspent_out = None
   \<and> get_tx_json prov_no_tx ''zz'' = Inl (ProviderError ''timeout'')
   \<and> \<not> os_spent unspent_out
   \<and> resolve_value prov_no_tx False ''zz'' 0 unspent_out = (0, Some ''tx_vout_error'')
   \<and> resolve_value prov_no_tx False ''zz'' 0 unspent_out \<noteq> (0, Some ''unknown'')
   \<and> trace_peel_chain prov_no_tx ''zz'' 0 8 False =
       Inr [\<lparr> from_tx = ''zz'', from_vout = 0, raw_outspend = Some unspent_out,
              hop_value_sats = Some 0, value_source = Some ''tx_vout_error'', spent = Some False,
              spent_in_tx = None, spent_in_vin_index = None, spent_addr = None, error = None \<rparr>]"
proof -
  have n: "nat 8 = Suc 7" by simp
  have r: "resolve_value prov_no_tx False ''zz'' 0 unspent_out = (0, Some ''tx_vout_error'')"
    by (simp add: resolve_value_def lookup_declared_def proxy_spent_def falsy_def unspent_out_def
        prov_no_tx_def truthy_def Let_def)
  have t: "trace_peel_chain prov_no_tx ''zz'' 0 8 False =
       Inr [\<lparr> from_tx = ''zz'', from_vout = 0, raw_outspend = Some unspent_out,
              hop_value_sats = Some 0, value_source = Some ''tx_vout_error'', spent = Some False,
              spent_in_tx = None, spent_in_vin_index = None, spent_addr = None, error = None \<rparr>]"
  proof -
    have o: "get_outspends prov_no_tx ''zz'' = Inr [unspent_out]" by (simp add: prov_no_tx_def)
    have i: "py_index [unspent_out] 0 = Inr unspent_out" by (simp add: py_index_def)
    have u: "os_spent unspent_out = False" "os_txid unspent_out = None" "os_vin unspent_out = None"
      by (simp_all add: unspent_out_def)
    show ?thesis
      unfolding trace_peel_chain_def n trace_loop.simps
      by (simp add: o i u r hop_record_def resolve_spent_addr_def)
  qed
  from r t show ?thesis by (simp add: unspent_out_def prov_no_tx_def)
qed

text \<open>
  Claim C6 on the code. With the output index -1 the tracer queries the provider, passes
  the range test (\<open>-1 >= 2\<close> is false), reads \<open>outspends[-1]\<close> and \<open>vouts[-1]\<close>, and
  returns an ordinary hop for the last output; with a negative hop count it returns the
  empty chain. Neither call fails with an input-validation error.
\<close>

theorem trace_negative_index:
  "trace_peel_chain prov_peel ''p1'' (- 1) 8 False =
     Inr [\<lparr> from_tx = ''p1'', from_vout = - 1, raw_outspend = Some unspent_out,
            hop_value_sats = Some 19000, value_source = Some ''tx_vout'', spent = Some False,
            spent_in_tx = None, spent_in_vin_index = None, spent_addr = None, error = None \<rparr>]
   \<and> trace_peel_chain prov_peel ''p1'' 0 (- 3) False = Inr []"
proof -
  have n: "nat 8 = Suc 7" by simp
  show ?thesis
    unfolding trace_peel_chain_def n trace_loop.simps
    by (simp add: prov_peel_def py_index_def hop_record_def
        resolve_value_def lookup_declared_def proxy_spent_def resolve_spent_addr_def falsy_def
        unspent_out_def tx_two_outputs_def std_out_def Let_def)
qed

section \<open>Peel-chain scorer: too few values\<close>







section \<open>Cluster driver: members and change candidates\<close>
























end
